theory Spec2Isabelle
  imports Main "HOL-Library.AList" "HOL-Library.Multiset"
begin

section \<open>Python strings\<close>

text \<open>
  A Python \<open>str\<close> is a sequence of code points and \<open>len\<close> counts code points. It is
  modelled by \<open>string\<close> with one \<open>char\<close> for each code point, which covers the code
  points below 256. \<open>lower\<close>, \<open>isspace\<close> and \<open>isdigit\<close> follow Python's tables on that
  range.
\<close>

definition startswith :: "string \<Rightarrow> string \<Rightarrow> bool" where
  "startswith s p = (take (length p) s = p)"

text \<open>\<open>str_in p s\<close> is Python's \<open>p in s\<close> on strings.\<close>

fun str_in :: "string \<Rightarrow> string \<Rightarrow> bool" where
  "str_in p [] = (p = [])"
| "str_in p (c # cs) = (startswith (c # cs) p \<or> str_in p cs)"

definition isspace :: "char \<Rightarrow> bool" where
  "isspace c = (let n = (of_char c :: nat)
                in (9 \<le> n \<and> n \<le> 13) \<or> (28 \<le> n \<and> n \<le> 32) \<or> n = 133 \<or> n = 160)"

definition strip :: "string \<Rightarrow> string" where
  "strip s = rev (dropWhile isspace (rev (dropWhile isspace s)))"

definition lower_char :: "char \<Rightarrow> char" where
  "lower_char c = (let n = (of_char c :: nat)
                   in if (65 \<le> n \<and> n \<le> 90) \<or> (192 \<le> n \<and> n \<le> 222 \<and> n \<noteq> 215)
                      then char_of (n + 32) else c)"

definition lower :: "string \<Rightarrow> string" where
  "lower s = map lower_char s"

definition isdigit :: "char \<Rightarrow> bool" where
  "isdigit c = (let n = (of_char c :: nat) in 48 \<le> n \<and> n \<le> 57)"

section \<open>Time\<close>

text \<open>
  \<open>datetime.datetime.now()\<close> is a naive datetime with microsecond resolution: an \<open>int\<close>
  counting microseconds. The \<open>'time'\<close> field of a stored record is the text
  \<open>'%Y-%m-%d %H:%M:%S'\<close>, a whole number of seconds: an \<open>int\<close> counting seconds, whose
  order is the order of the fixed-width texts. \<open>strftime\<close> drops the microseconds, and
  \<open>elapsed now t\<close> is \<open>(current_time - last_time).total_seconds()\<close> in microseconds.
\<close>

definition strftime :: "int \<Rightarrow> int" where
  "strftime current_time = current_time div 1000000"

definition elapsed :: "int \<Rightarrow> int \<Rightarrow> int" where
  "elapsed current_time last_time = current_time - last_time * 1000000"

section \<open>The state record\<close>

record notified_entry =
  ne_title :: string
  ne_link :: string
  ne_keywords :: "string list"
  ne_time :: int

record title_entry =
  tn_title :: string
  tn_link :: string
  tn_time :: int

record telegram_settings =
  bot_token :: string
  chat_id :: string

text \<open>
  A dict is an association list in insertion order (\<open>AList.update\<close> overwrites in place or
  appends, as \<open>d[k] = v\<close> does). \<open>title_notifications\<close> may be missing from the record
  (\<open>DEFAULT_CONFIG\<close> has no such key), hence the option.
\<close>

record config =
  cfg_keywords :: "string list"
  notified_entries :: "(string \<times> notified_entry) list"
  title_notifications :: "(string \<times> title_entry) list option"
  telegram :: telegram_settings

text \<open>\<open>dict(sorted(d.items(), key=time, reverse=True)[:n])\<close>; Python's sort is stable, also
  with \<open>reverse=True\<close>.\<close>

definition newest :: "nat \<Rightarrow> ('v \<Rightarrow> int) \<Rightarrow> (string \<times> 'v) list \<Rightarrow> (string \<times> 'v) list" where
  "newest n tm d = take n (sort_key (\<lambda>item. - tm (snd item)) d)"

section \<open>save_config\<close>

text \<open>Lines 129-148: the caps applied to the caller's record in place.\<close>

definition save_config_limit :: "config \<Rightarrow> config" where
  "save_config_limit c =
     (let c1 = (if length (notified_entries c) > 50
                then c\<lparr>notified_entries := newest 50 ne_time (notified_entries c)\<rparr> else c)
      in case title_notifications c1 of
           None \<Rightarrow> c1
         | Some t \<Rightarrow> if length t > 100
                     then c1\<lparr>title_notifications := Some (newest 100 tn_time t)\<rparr> else c1)"

text \<open>Lines 159-181: the replacement record built when the serialisation is too large.\<close>

definition basic_config :: "config \<Rightarrow> config" where
  "basic_config c =
     \<lparr>cfg_keywords = cfg_keywords c,
      notified_entries =
        (if notified_entries c \<noteq> [] then newest 20 ne_time (notified_entries c) else []),
      title_notifications =
        Some (case title_notifications c of
                None \<Rightarrow> []
              | Some t \<Rightarrow> if t \<noteq> [] then newest 20 tn_time t else []),
      telegram = telegram c\<rparr>"

text \<open>
  \<open>json_len c\<close> is \<open>len(json.dumps(c, ensure_ascii=False))\<close>, a function of the json
  library. The result is the caller's record after the call and the record written to
  the file. A record of these types always serialises, so the handler of line 187 is not
  reached; the file operations after line 192 are outside the model.
\<close>

definition save_config :: "(config \<Rightarrow> nat) \<Rightarrow> config \<Rightarrow> config \<times> config" where
  "save_config json_len c =
     (let c1 = save_config_limit c
      in (c1, if json_len c1 > 1024 * 1024 then basic_config c1 else c1))"

section \<open>send_telegram_message\<close>

text \<open>\<open>http_ok\<close>: the request returned status 200 without raising.\<close>

definition send_telegram_message :: "bool \<Rightarrow> config \<Rightarrow> bool" where
  "send_telegram_message http_ok c =
     (if bot_token (telegram c) = [] \<or> chat_id (telegram c) = [] then False else http_ok)"

section \<open>Parsed markup\<close>

text \<open>
  The page is seen through the calls the code makes on it. An element the code reads a
  title or a link from gives its \<open>get_text(strip=True)\<close> and its \<open>get('href')\<close>; a
  candidate item gives in addition its tag name, \<open>select_one\<close> and \<open>find_all('a')\<close>.
  \<open>limit=n\<close> keeps the first \<open>n\<close> results.
\<close>

record element =
  el_text :: string
  el_href :: "string option"

record post =
  post_name :: string
  post_text :: string
  post_href :: "string option"
  post_select_one :: "string \<Rightarrow> element option"
  post_find_all_a :: "element list"

text \<open>\<open>soup_title_forum\<close>: the two-character word of line 413 occurs in the title text
  (its code points are beyond \<open>char\<close>).\<close>

record soup =
  soup_title :: "string option"
  soup_title_forum :: bool
  soup_select :: "string \<Rightarrow> post list"
  soup_find_all_div :: "post list"

section \<open>check_rss_feed: finding the items\<close>

definition is_valid_page :: "soup \<Rightarrow> bool" where
  "is_valid_page s =
     ((case soup_title s of
         None \<Rightarrow> False
       | Some t \<Rightarrow> str_in ''NodeSeek'' t \<or> soup_title_forum s)
      \<or> soup_select s ''.navbar'' \<noteq> [] \<or> soup_select s ''header'' \<noteq> []
      \<or> soup_select s ''footer'' \<noteq> [])"

definition selectors_to_try :: "string list" where
  \<open>selectors_to_try =
     [''.post-list .post-item'', ''.post-card'', ''.post-item'', ''.category-post-item'',
      ''article'', ''.topic-item'', ''.thread-item'', ''.card'', ''.topic-list .topic'',
      ''.topic-list .topic-item'', ''.topic-list tr'', ''.row.topic-list-item'',
      ''.node-teaser'', ''tbody tr'', ''.item'', ''.list-item'', ''.thread'', ''.post'',
      ''a.subject'', ''[class*="post"]'', ''[class*="topic"]'']\<close>

fun try_selectors :: "(string \<Rightarrow> post list) \<Rightarrow> string list \<Rightarrow> post list" where
  "try_selectors sel [] = []"
| "try_selectors sel (selector # rest) =
     (let items = sel selector
      in if items \<noteq> [] \<and> length items \<ge> 5 then take 40 items else try_selectors sel rest)"

text \<open>Lines 489-495: the loop over the first 100 divs, left once 40 are collected.\<close>

fun potential_post_divs :: "post list \<Rightarrow> post list \<Rightarrow> post list" where
  "potential_post_divs acc [] = acc"
| "potential_post_divs acc (d # ds) =
     (if take 5 (post_find_all_a d) \<noteq> [] \<and> length (post_text d) > 20
      then (let acc' = acc @ [d]
            in if length acc' \<ge> 40 then acc' else potential_post_divs acc' ds)
      else potential_post_divs acc ds)"

definition link_pattern_selector :: string where
  \<open>link_pattern_selector =
     ''a[href*="/post/"], a[href*="/topic/"], a[href*="/thread/"], a[href*="/discussion/"]''\<close>

definition fallback_divs :: "soup \<Rightarrow> post list" where
  "fallback_divs s = take 40 (potential_post_divs [] (take 100 (soup_find_all_div s)))"

definition fallback_links :: "soup \<Rightarrow> post list" where
  "fallback_links s = take 40 (soup_select s link_pattern_selector)"

definition fallback_rows :: "soup \<Rightarrow> post list" where
  "fallback_rows s =
     (let table_rows = take 40 (soup_select s ''table tr'')
      in if table_rows \<noteq> [] \<and> length table_rows > 1
         then (if length table_rows > 40 then take 39 (drop 1 table_rows) else drop 1 table_rows)
         else [])"

definition discover :: "soup \<Rightarrow> post list" where
  "discover s =
     (let post_items = try_selectors (soup_select s) selectors_to_try;
          post_items = (if post_items = [] \<and> fallback_divs s \<noteq> [] then fallback_divs s
                        else post_items);
          post_items = (if post_items = [] \<and> fallback_links s \<noteq> [] then fallback_links s
                        else post_items);
          post_items = (if post_items = [] then fallback_rows s else post_items)
      in post_items)"

section \<open>check_rss_feed: title and link of one item\<close>

definition title_selectors :: "string list" where
  \<open>title_selectors =
     [''a.post-title'', ''.post-title'', ''h3'', ''h2'', ''.title'', ''h4'',
      ''a[href*="/post/"]'', ''a[href*="/topic/"]'', ''a[href*="/thread/"]'',
      ''a.subject'', ''.subject'', ''a.title'', ''td.topic-title a'',
      ''a[class*="title"]'', ''.topic-name a'', ''.thread-title a'', ''a.thread-link'',
      ''a'']\<close>

definition link_selectors :: "string list" where
  \<open>link_selectors =
     [''a[href*="/post/"]'', ''a[href*="/topic/"]'', ''a[href*="/thread/"]'',
      ''a[href*="/discussion/"]'', ''a.subject'', ''a.title'', ''a[class*="title"]'',
      ''a'']\<close>

fun select_first :: "(string \<Rightarrow> element option) \<Rightarrow> string list \<Rightarrow> element option" where
  "select_first sel [] = None"
| "select_first sel (selector # rest) =
     (case sel selector of Some e \<Rightarrow> Some e | None \<Rightarrow> select_first sel rest)"

definition find_title_element :: "post \<Rightarrow> element option" where
  "find_title_element p =
     (case select_first (post_select_one p) title_selectors of
        Some e \<Rightarrow> Some e
      | None \<Rightarrow>
          if post_name p = ''a'' then Some \<lparr>el_text = post_text p, el_href = post_href p\<rparr>
          else (case take 3 (post_find_all_a p) of [] \<Rightarrow> None | e # _ \<Rightarrow> Some e))"

text \<open>Lines 580-593.\<close>

definition recover_title :: "post \<Rightarrow> element \<Rightarrow> string" where
  "recover_title p e =
     (if el_text e = []
      then (let title = post_text p
            in if length title > 50 then take 50 title @ ''...'' else title)
      else el_text e)"

text \<open>Truth value of \<open>x.get('href')\<close>: present and not empty.\<close>

definition truthy :: "string option \<Rightarrow> bool" where
  "truthy h = (case h of None \<Rightarrow> False | Some l \<Rightarrow> l \<noteq> [])"

fun select_link :: "(string \<Rightarrow> element option) \<Rightarrow> string list \<Rightarrow> string option" where
  "select_link sel [] = None"
| "select_link sel (selector # rest) =
     (case sel selector of
        None \<Rightarrow> select_link sel rest
      | Some e \<Rightarrow> if truthy (el_href e) then el_href e else select_link sel rest)"

definition find_link :: "post \<Rightarrow> element \<Rightarrow> string option" where
  "find_link p e =
     (if truthy (el_href e) then el_href e
      else select_link (post_select_one p) link_selectors)"

definition site_origin :: string where
  "site_origin = ''https://www.nodeseek.com''"

text \<open>Lines 624-628, for a link that is present and not empty.\<close>

definition absolute_link :: "string \<Rightarrow> string" where
  "absolute_link link =
     (if \<not> startswith link ''http''
      then (if startswith link ''/'' then site_origin @ link else site_origin @ ''/'' @ link)
      else link)"

datatype outcome =
    NoTitleElement
  | TitleTooShort
  | NoLink
  | SpaceLink
  | TitleAlreadyNotified
  | IdAlreadyNotified
  | NoKeywordMatch
  | ItemError
  | Sent "string list" string string
  | SendFailed "string list" string string

text \<open>Lines 546-638: the title and the link of an item, or the reason it is skipped.\<close>

definition extract_item :: "post \<Rightarrow> outcome + (string \<times> string)" where
  "extract_item p =
     (case find_title_element p of
        None \<Rightarrow> Inl NoTitleElement
      | Some e \<Rightarrow>
          let title = recover_title p e
          in if length title < 2 then Inl TitleTooShort
             else (case find_link p e of
                     None \<Rightarrow> Inl NoLink
                   | Some l \<Rightarrow>
                       if l = [] then Inl NoLink
                       else (let link = absolute_link l
                             in if str_in ''/space/'' link then Inl SpaceLink
                                else Inr (title, link))))"

section \<open>check_rss_feed: identity of an item\<close>

text \<open>\<open>re.search(pre + r'(\d+)', s)\<close>, group 1: the digits after the leftmost occurrence
  of \<open>pre\<close> that is followed by a digit.\<close>

fun re_search_digits :: "string \<Rightarrow> string \<Rightarrow> string option" where
  "re_search_digits pre [] = None"
| "re_search_digits pre (c # cs) =
     (let ds = takeWhile isdigit (drop (length pre) (c # cs))
      in if startswith (c # cs) pre \<and> ds \<noteq> [] then Some ds else re_search_digits pre cs)"

definition post_id_patterns :: "string list" where
  "post_id_patterns = [''/post/'', ''/topic/'', ''/thread/'', ''/space/'', ''/discussion/'']"

fun first_post_id :: "string list \<Rightarrow> string \<Rightarrow> string option" where
  "first_post_id [] link = None"
| "first_post_id (pattern # rest) link =
     (case re_search_digits pattern link of
        Some post_id \<Rightarrow> Some post_id
      | None \<Rightarrow> first_post_id rest link)"

definition entry_id_of :: "string \<Rightarrow> string" where
  "entry_id_of link =
     (case first_post_id post_id_patterns link of
        Some post_id \<Rightarrow> ''post_'' @ post_id
      | None \<Rightarrow> link)"

section \<open>check_rss_feed: the gates and the notification\<close>

text \<open>\<open>config.get('title_notifications', {})\<close>.\<close>

definition tn_get :: "config \<Rightarrow> (string \<times> title_entry) list" where
  "tn_get c = (case title_notifications c of None \<Rightarrow> [] | Some t \<Rightarrow> t)"

text \<open>Lines 666-674.\<close>

definition title_cleanup :: "int \<Rightarrow> (string \<times> title_entry) list \<Rightarrow> string list" where
  "title_cleanup current_time t =
     map fst (filter (\<lambda>item. elapsed current_time (tn_time (snd item)) > 86400 * 1000000) t)"

definition purge_titles :: "int \<Rightarrow> config \<Rightarrow> config" where
  "purge_titles current_time c =
     (case title_notifications c of
        None \<Rightarrow> c
      | Some t \<Rightarrow>
          c\<lparr>title_notifications := Some (fold AList.delete (title_cleanup current_time t) t)\<rparr>)"

text \<open>Lines 677-686.\<close>

fun title_already_notified :: "string \<Rightarrow> int \<Rightarrow> (string \<times> title_entry) list \<Rightarrow> bool" where
  "title_already_notified normalized_title current_time [] = False"
| "title_already_notified normalized_title current_time (item # rest) =
     (if (normalized_title = fst item \<or> str_in normalized_title (fst item)
          \<or> str_in (fst item) normalized_title)
         \<and> elapsed current_time (tn_time (snd item)) < 7200 * 1000000
      then True
      else title_already_notified normalized_title current_time rest)"

definition match_keywords :: "string list \<Rightarrow> string \<Rightarrow> string list" where
  "match_keywords kws title = filter (\<lambda>keyword. str_in (lower keyword) (lower title)) kws"

text \<open>
  Lines 643-729 for an item with a title and a link. \<open>current_time\<close> is the clock read at
  line 664. A missing \<open>title_notifications\<close> raises KeyError at line 704, which the
  handler of line 730 turns into skipping the item. The message of line 722 is
  represented by its three variable parts.
\<close>

definition check_item :: "config \<Rightarrow> int \<Rightarrow> bool \<Rightarrow> string \<Rightarrow> string \<Rightarrow> config \<times> outcome" where
  "check_item c current_time http_ok title link =
     (let entry_id = entry_id_of link;
          normalized_title = strip (lower title);
          c1 = purge_titles current_time c
      in if title_already_notified normalized_title current_time (tn_get c1)
         then (c1, TitleAlreadyNotified)
         else if entry_id \<in> set (map fst (notified_entries c1))
         then (c1, IdAlreadyNotified)
         else (let matched_keywords = match_keywords (cfg_keywords c1) title
               in if matched_keywords = [] then (c1, NoKeywordMatch)
                  else (case title_notifications c1 of
                          None \<Rightarrow> (c1, ItemError)
                        | Some t \<Rightarrow>
                            let c2 = c1\<lparr>title_notifications :=
                                       Some (AList.update normalized_title
                                               \<lparr>tn_title = title, tn_link = link,
                                                tn_time = strftime current_time\<rparr> t)\<rparr>;
                                c3 = c2\<lparr>notified_entries :=
                                       AList.update entry_id
                                         \<lparr>ne_title = title, ne_link = link,
                                          ne_keywords = matched_keywords,
                                          ne_time = strftime current_time\<rparr>
                                         (notified_entries c2)\<rparr>
                            in if send_telegram_message http_ok c3
                               then (c3, Sent matched_keywords title link)
                               else (c3\<lparr>notified_entries :=
                                          AList.delete entry_id (notified_entries c3)\<rparr>,
                                     SendFailed matched_keywords title link))))"

definition process_post :: "config \<Rightarrow> int \<Rightarrow> bool \<Rightarrow> post \<Rightarrow> config \<times> outcome" where
  "process_post c current_time http_ok p =
     (case extract_item p of
        Inl skipped \<Rightarrow> (c, skipped)
      | Inr (title, link) \<Rightarrow> check_item c current_time http_ok title link)"

text \<open>The loop of line 539; \<open>clock i\<close> and \<open>http i\<close> are the clock reading and the fate of
  the request while item \<open>i\<close> is processed.\<close>

fun process_posts ::
  "(nat \<Rightarrow> int) \<Rightarrow> (nat \<Rightarrow> bool) \<Rightarrow> nat \<Rightarrow> config \<Rightarrow> post list \<Rightarrow> config \<times> outcome list" where
  "process_posts clock http i c [] = (c, [])"
| "process_posts clock http i c (p # ps) =
     (let (c1, out) = process_post c (clock i) (http i) p;
          (c2, outs) = process_posts clock http (Suc i) c1 ps
      in (c2, out # outs))"

text \<open>An item sets \<open>config_changed\<close> when it reaches line 719.\<close>

fun sets_config_changed :: "outcome \<Rightarrow> bool" where
  "sets_config_changed (Sent ks t l) = True"
| "sets_config_changed (SendFailed ks t l) = True"
| "sets_config_changed other = False"

text \<open>Lines 739-765.\<close>

definition limit_stores :: "config \<Rightarrow> bool \<Rightarrow> config \<times> bool" where
  "limit_stores c config_changed =
     (let (c1, ch1) = (if length (notified_entries c) > 50
                       then (c\<lparr>notified_entries := newest 50 ne_time (notified_entries c)\<rparr>, True)
                       else (c, config_changed))
      in if length (tn_get c1) > 100
         then (c1\<lparr>title_notifications := Some (newest 100 tn_time (tn_get c1))\<rparr>, True)
         else (c1, ch1))"

section \<open>check_rss_feed: one attempt on a fetched page\<close>

definition max_retries :: nat where
  "max_retries = 3"

definition retry_delay :: nat where
  "retry_delay = 10"

text \<open>\<open>Continue d\<close>: sleep \<open>d\<close> seconds, then the next attempt; \<open>Return\<close>: leave the function.\<close>

datatype control = Continue nat | Return

definition retry_or_return :: "nat \<Rightarrow> control" where
  "retry_or_return attempt =
     (if attempt < max_retries - 1 then Continue (retry_delay * (attempt + 2)) else Return)"

record attempt_result =
  ar_config :: config
  ar_need_cookie_refresh :: bool
  ar_control :: control
  ar_outcomes :: "outcome list"
  ar_saved :: "config option"

text \<open>Lines 322-323.\<close>

definition ensure_title_notifications :: "config \<Rightarrow> config" where
  "ensure_title_notifications c =
     (case title_notifications c of None \<Rightarrow> c\<lparr>title_notifications := Some []\<rparr> | Some t \<Rightarrow> c)"

text \<open>
  Lines 409-771: what attempt number \<open>attempt\<close> does with the parsed page, from the
  validity check to the save. \<open>ar_saved\<close> is the record written by \<open>save_config\<close>, if it
  is called.
\<close>

definition check_page ::
  "(config \<Rightarrow> nat) \<Rightarrow> (nat \<Rightarrow> int) \<Rightarrow> (nat \<Rightarrow> bool) \<Rightarrow> config \<Rightarrow> bool \<Rightarrow> nat \<Rightarrow> soup
     \<Rightarrow> attempt_result" where
  "check_page json_len clock http c need_cookie_refresh attempt s =
     (if \<not> is_valid_page s
      then \<lparr>ar_config = c, ar_need_cookie_refresh = True,
            ar_control = retry_or_return attempt, ar_outcomes = [], ar_saved = None\<rparr>
      else (let post_items = discover s
            in if post_items = []
               then \<lparr>ar_config = c, ar_need_cookie_refresh = True,
                     ar_control = retry_or_return attempt, ar_outcomes = [], ar_saved = None\<rparr>
               else (let (c1, outs) = process_posts clock http 0 c post_items;
                         (c2, config_changed) =
                            limit_stores c1 (list_ex sets_config_changed outs)
                     in if config_changed
                        then (let (c3, written) = save_config json_len c2
                              in \<lparr>ar_config = c3, ar_need_cookie_refresh = need_cookie_refresh,
                                  ar_control = Return, ar_outcomes = outs,
                                  ar_saved = Some written\<rparr>)
                        else \<lparr>ar_config = c2, ar_need_cookie_refresh = need_cookie_refresh,
                              ar_control = Return, ar_outcomes = outs, ar_saved = None\<rparr>)))"

section \<open>Example inputs\<close>

definition ex_telegram :: telegram_settings where
  "ex_telegram = \<lparr>bot_token = ''123:abc'', chat_id = ''42''\<rparr>"

definition ex_config :: config where
  "ex_config = \<lparr>cfg_keywords = [''vps''], notified_entries = [],
                 title_notifications = Some [], telegram = ex_telegram\<rparr>"

definition ex_post :: "string \<Rightarrow> string \<Rightarrow> post" where
  "ex_post title href =
     \<lparr>post_name = ''div'', post_text = title, post_href = None,
      post_select_one = (\<lambda>selector. if selector = ''a.post-title''
                                      then Some \<lparr>el_text = title, el_href = Some href\<rparr> else None),
      post_find_all_a = [\<lparr>el_text = title, el_href = Some href\<rparr>]\<rparr>"

definition ex_soup :: soup where
  "ex_soup =
     \<lparr>soup_title = Some ''NodeSeek'', soup_title_forum = False,
      soup_select = (\<lambda>selector. if selector = ''.post-card''
                                  then replicate 5 (ex_post ''Cheap VPS offer'' ''/post-101-1'')
                                  else []),
      soup_find_all_div = []\<rparr>"

definition ex_entries :: "nat \<Rightarrow> (string \<times> notified_entry) list" where
  "ex_entries n =
     map (\<lambda>i. (replicate (Suc i) CHR ''k'',
                \<lparr>ne_title = ''t'', ne_link = ''l'', ne_keywords = [], ne_time = int i\<rparr>)) [0..<n]"

definition ex_big_json_len :: "config \<Rightarrow> nat" where
  "ex_big_json_len c = 2000000"

definition ex_full_config :: config where
  "ex_full_config = ex_config\<lparr>notified_entries := ex_entries 60\<rparr>"

definition ex_link1 :: string where
  "ex_link1 = ''https://www.nodeseek.com/post/1''"

definition ex_link2 :: string where
  "ex_link2 = ''https://www.nodeseek.com/post/2''"

definition ex_deal_config :: config where
  "ex_deal_config = \<lparr>cfg_keywords = [''Deal''], notified_entries = [],
                      title_notifications = Some [], telegram = ex_telegram\<rparr>"

definition ex_old_title :: title_entry where
  "ex_old_title = \<lparr>tn_title = ''Deal A'', tn_link = ex_link1, tn_time = 0\<rparr>"

definition ex_old_config :: config where
  "ex_old_config =
     \<lparr>cfg_keywords = [''Deal''],
      notified_entries = [(''post_1'', \<lparr>ne_title = ''Deal A'', ne_link = ex_link1,
                                        ne_keywords = [''Deal''], ne_time = 0\<rparr>)],
      title_notifications = Some [(''deal a'', ex_old_title)],
      telegram = ex_telegram\<rparr>"

definition ex_between :: "post list" where
  "ex_between = [ex_post ''Cheap VPS offer'' ''/post-101-1'']"

definition ex_empty_heading :: element where
  "ex_empty_heading = \<lparr>el_text = [], el_href = Some ''/post-7-1''\<rparr>"

definition ex_long_post :: post where
  "ex_long_post =
     \<lparr>post_name = ''div'', post_text = replicate 60 CHR ''x'', post_href = None,
      post_select_one = (\<lambda>selector. if selector = ''h3'' then Some ex_empty_heading else None),
      post_find_all_a = []\<rparr>"

definition ex_link_post :: post where
  "ex_link_post =
     \<lparr>post_name = ''a'', post_text = ''Cheap VPS offer'', post_href = Some ''/post/9'',
      post_select_one = (\<lambda>selector. None), post_find_all_a = []\<rparr>"

definition ex_links_soup :: soup where
  "ex_links_soup =
     \<lparr>soup_title = Some ''NodeSeek'', soup_title_forum = False,
      soup_select = (\<lambda>selector. if selector = link_pattern_selector
                                  then replicate 7 ex_link_post else []),
      soup_find_all_div = []\<rparr>"

definition ex_empty_soup :: soup where
  "ex_empty_soup =
     \<lparr>soup_title = Some ''NodeSeek'', soup_title_forum = False,
      soup_select = (\<lambda>selector. []), soup_find_all_div = []\<rparr>"

section \<open>Auxiliary notions for the proofs\<close>

text \<open>The title store holds a record under key \<open>k\<close> written at \<open>t1\<close> or later.\<close>

definition has_title_since :: "config \<Rightarrow> string \<Rightarrow> int \<Rightarrow> bool" where
  "has_title_since c k t1 = (\<exists>item\<in>set (tn_get c). fst item = k \<and> t1 \<le> tn_time (snd item))"


section \<open>The size caps\<close>

lemma length_newest: "length (newest n tm d) = min n (length d)"
  by (simp add: newest_def min.commute)

lemma newest_split:
  "mset d = mset (newest n tm d) + mset (drop n (sort_key (\<lambda>item. - tm (snd item)) d))"
proof -
  let ?xs = "sort_key (\<lambda>item. - tm (snd item)) d"
  have "mset (take n ?xs) + mset (drop n ?xs) = mset ?xs"
    by (metis append_take_drop_id mset_append)
  then show ?thesis unfolding newest_def by simp
qed

lemma newest_older:
  assumes "r \<in> set (drop n (sort_key (\<lambda>item. - tm (snd item)) d))"
    and "k \<in> set (newest n tm d)"
  shows "tm (snd r) \<le> tm (snd k)"
proof -
  let ?f = "\<lambda>item. - tm (snd item)"
  let ?xs = "sort_key ?f d"
  have "sorted (map ?f (take n ?xs @ drop n ?xs))" by simp
  then have "\<forall>a\<in>set (take n ?xs). \<forall>b\<in>set (drop n ?xs). ?f a \<le> ?f b"
    unfolding map_append sorted_append by auto
  with assms show ?thesis by (auto simp: newest_def)
qed

lemma newest_evicts_oldest:
  "\<exists>removed. mset d = mset (newest n tm d) + mset removed
     \<and> (\<forall>r\<in>set removed. \<forall>k\<in>set (newest n tm d). tm (snd r) \<le> tm (snd k))"
  using newest_split [of d n tm] newest_older [of _ n tm d] by blast

lemma newest_newest: "m \<le> n \<Longrightarrow> newest m tm (newest n tm d) = newest m tm d"
proof -
  assume mn: "m \<le> n"
  let ?f = "\<lambda>item. - tm (snd item)"
  let ?xs = "sort_key ?f d"
  have "sorted (take n (map ?f ?xs))"
    by (rule sorted_wrt_take) simp
  then have "sorted (map ?f (take n ?xs))"
    by (simp add: take_map)
  then have "sort_key ?f (take n ?xs) = take n ?xs" by (rule sort_key_id_if_sorted)
  with mn show ?thesis by (simp add: newest_def min_def)
qed

lemma newest_Nil: "newest n tm [] = []" by (simp add: newest_def)

lemma capped_evicts_oldest:
  "\<exists>removed. mset d = mset (if length d > n then newest n tm d else d) + mset removed
     \<and> (\<forall>r\<in>set removed. \<forall>k\<in>set (if length d > n then newest n tm d else d).
            tm (snd r) \<le> tm (snd k))"
proof (cases "length d > n")
  case True
  then show ?thesis using newest_evicts_oldest [of d n tm] by simp
next
  case False
  then have "mset d = mset (if length d > n then newest n tm d else d) + mset []
     \<and> (\<forall>r\<in>set []. \<forall>k\<in>set (if length d > n then newest n tm d else d).
            tm (snd r) \<le> tm (snd k))" by simp
  then show ?thesis by blast
qed

lemma limit_stores_notified:
  "notified_entries (fst (limit_stores c ch)) =
     (if length (notified_entries c) > 50 then newest 50 ne_time (notified_entries c)
      else notified_entries c)"
  by (simp add: limit_stores_def tn_get_def split: option.splits)

lemma limit_stores_titles:
  "tn_get (fst (limit_stores c ch)) =
     (if length (tn_get c) > 100 then newest 100 tn_time (tn_get c) else tn_get c)"
  by (simp add: limit_stores_def tn_get_def split: option.splits)

lemma save_config_limit_id:
  "length (notified_entries c) \<le> 50 \<Longrightarrow> length (tn_get c) \<le> 100 \<Longrightarrow> save_config_limit c = c"
  by (simp add: save_config_limit_def tn_get_def split: option.splits)

lemma limit_stores_bounds:
  "length (notified_entries (fst (limit_stores c ch))) \<le> 50"
  "length (tn_get (fst (limit_stores c ch))) \<le> 100"
  by (simp_all add: limit_stores_notified limit_stores_titles length_newest)

lemma check_page_pass:
  assumes "is_valid_page s" and "discover s \<noteq> []"
  shows "ar_config (check_page json_len clock http c ncr attempt s) =
           fst (limit_stores (fst (process_posts clock http 0 c (discover s)))
                  (list_ex sets_config_changed (snd (process_posts clock http 0 c (discover s)))))"
    and "ar_saved (check_page json_len clock http c ncr attempt s) =
           (let limited = limit_stores (fst (process_posts clock http 0 c (discover s)))
                  (list_ex sets_config_changed (snd (process_posts clock http 0 c (discover s))))
            in if snd limited then Some (snd (save_config json_len (fst limited))) else None)"
proof -
  obtain c1 outs where p: "process_posts clock http 0 c (discover s) = (c1, outs)"
    by (cases "process_posts clock http 0 c (discover s)")
  obtain c2 ch2 where l: "limit_stores c1 (list_ex sets_config_changed outs) = (c2, ch2)"
    by (cases "limit_stores c1 (list_ex sets_config_changed outs)")
  have b: "length (notified_entries c2) \<le> 50" "length (tn_get c2) \<le> 100"
    using limit_stores_bounds [of c1 "list_ex sets_config_changed outs"] l by simp_all
  show "ar_config (check_page json_len clock http c ncr attempt s) =
           fst (limit_stores (fst (process_posts clock http 0 c (discover s)))
                  (list_ex sets_config_changed (snd (process_posts clock http 0 c (discover s)))))"
    using assms p l save_config_limit_id [OF b]
    by (simp add: check_page_def save_config_def Let_def)
  show "ar_saved (check_page json_len clock http c ncr attempt s) =
           (let limited = limit_stores (fst (process_posts clock http 0 c (discover s)))
                  (list_ex sets_config_changed (snd (process_posts clock http 0 c (discover s))))
            in if snd limited then Some (snd (save_config json_len (fst limited))) else None)"
    using assms p l by (simp add: check_page_def Let_def split_beta)
qed

text \<open>
  C4. In an attempt that evaluates items (the page is valid and items were found), the
  record \<open>c2\<close> that lines 739-765 leave, before \<open>save_config\<close> is called, holds at most
  50 records in \<open>notified_entries\<close> and at most 100 in \<open>title_notifications\<close>. Each
  store keeps as many records as the cap allows, and every record removed is at most as
  recent as every record kept. \<open>c1\<close> is the record when the loop over the items ends;
  \<open>c2\<close> is what \<open>save_config\<close> receives, if it is called, and the record of the
  attempt's end.
\<close>

theorem stores_capped_before_persist:
  assumes "is_valid_page s" and "discover s \<noteq> []"
  shows "let c1 = fst (process_posts clock http 0 c (discover s));
             outs = snd (process_posts clock http 0 c (discover s));
             c2 = fst (limit_stores c1 (list_ex sets_config_changed outs));
             config_changed = snd (limit_stores c1 (list_ex sets_config_changed outs));
             result = check_page json_len clock http c need_cookie_refresh attempt s
         in length (notified_entries c2) = min 50 (length (notified_entries c1))
          \<and> length (tn_get c2) = min 100 (length (tn_get c1))
          \<and> (\<exists>removed. mset (notified_entries c1) = mset (notified_entries c2) + mset removed
                \<and> (\<forall>r\<in>set removed. \<forall>k\<in>set (notified_entries c2).
                       ne_time (snd r) \<le> ne_time (snd k)))
          \<and> (\<exists>removed. mset (tn_get c1) = mset (tn_get c2) + mset removed
                \<and> (\<forall>r\<in>set removed. \<forall>k\<in>set (tn_get c2).
                       tn_time (snd r) \<le> tn_time (snd k)))
          \<and> ar_saved result =
               (if config_changed then Some (snd (save_config json_len c2)) else None)
          \<and> ar_config result = c2"
proof -
  define c1 where "c1 = fst (process_posts clock http 0 c (discover s))"
  define outs where "outs = snd (process_posts clock http 0 c (discover s))"
  define c2 where "c2 = fst (limit_stores c1 (list_ex sets_config_changed outs))"
  have n: "length (notified_entries c2) = min 50 (length (notified_entries c1))"
    unfolding c2_def by (simp add: limit_stores_notified length_newest)
  have t: "length (tn_get c2) = min 100 (length (tn_get c1))"
    unfolding c2_def by (simp add: limit_stores_titles length_newest)
  have en: "\<exists>removed. mset (notified_entries c1) = mset (notified_entries c2) + mset removed
      \<and> (\<forall>r\<in>set removed. \<forall>k\<in>set (notified_entries c2). ne_time (snd r) \<le> ne_time (snd k))"
    unfolding c2_def limit_stores_notified by (rule capped_evicts_oldest)
  have et: "\<exists>removed. mset (tn_get c1) = mset (tn_get c2) + mset removed
      \<and> (\<forall>r\<in>set removed. \<forall>k\<in>set (tn_get c2). tn_time (snd r) \<le> tn_time (snd k))"
    unfolding c2_def limit_stores_titles by (rule capped_evicts_oldest)
  have a: "ar_config (check_page json_len clock http c need_cookie_refresh attempt s) = c2"
    unfolding c2_def c1_def outs_def by (rule check_page_pass(1) [OF assms])
  have sv: "ar_saved (check_page json_len clock http c need_cookie_refresh attempt s) =
      (if snd (limit_stores c1 (list_ex sets_config_changed outs))
       then Some (snd (save_config json_len c2)) else None)"
    unfolding c2_def c1_def outs_def using check_page_pass(2) [OF assms] by (simp add: Let_def)
  show ?thesis
    unfolding Let_def c1_def [symmetric] outs_def [symmetric] c2_def [symmetric]
    using n t en et a sv by blast
qed

lemma save_config_limit_fields:
  "cfg_keywords (save_config_limit c) = cfg_keywords c"
  "telegram (save_config_limit c) = telegram c"
  "notified_entries (save_config_limit c) =
     (if length (notified_entries c) > 50 then newest 50 ne_time (notified_entries c)
      else notified_entries c)"
  "tn_get (save_config_limit c) =
     (if length (tn_get c) > 100 then newest 100 tn_time (tn_get c) else tn_get c)"
  by (simp_all add: save_config_limit_def tn_get_def Let_def split: option.splits)

lemma basic_config_fields:
  "cfg_keywords (basic_config c) = cfg_keywords c"
  "telegram (basic_config c) = telegram c"
  "notified_entries (basic_config c) = newest 20 ne_time (notified_entries c)"
  "title_notifications (basic_config c) = Some (newest 20 tn_time (tn_get c))"
  by (simp_all add: basic_config_def tn_get_def newest_Nil split: option.splits)

text \<open>
  C10. When the serialisation is longer than 1 MB at the test of line 155, the record
  written has the keywords and the telegram settings of the caller's record, and in each
  of \<open>notified_entries\<close> and \<open>title_notifications\<close> the 20 most recent records of the
  caller's: every record left out is at most as recent as every record written.
\<close>

theorem save_config_oversize:
  assumes "json_len (save_config_limit c) > 1024 * 1024"
  shows "let written = snd (save_config json_len c)
         in cfg_keywords written = cfg_keywords c
          \<and> telegram written = telegram c
          \<and> notified_entries written = newest 20 ne_time (notified_entries c)
          \<and> title_notifications written = Some (newest 20 tn_time (tn_get c))
          \<and> length (notified_entries written) = min 20 (length (notified_entries c))
          \<and> length (tn_get written) = min 20 (length (tn_get c))
          \<and> (\<exists>removed. mset (notified_entries c) = mset (notified_entries written) + mset removed
                \<and> (\<forall>r\<in>set removed. \<forall>k\<in>set (notified_entries written).
                       ne_time (snd r) \<le> ne_time (snd k)))
          \<and> (\<exists>removed. mset (tn_get c) = mset (tn_get written) + mset removed
                \<and> (\<forall>r\<in>set removed. \<forall>k\<in>set (tn_get written).
                       tn_time (snd r) \<le> tn_time (snd k)))"
proof -
  have w: "snd (save_config json_len c) = basic_config (save_config_limit c)"
    using assms by (simp add: save_config_def Let_def)
  have n: "notified_entries (basic_config (save_config_limit c))
      = newest 20 ne_time (notified_entries c)"
    by (simp add: basic_config_fields save_config_limit_fields newest_newest)
  have t: "title_notifications (basic_config (save_config_limit c))
      = Some (newest 20 tn_time (tn_get c))"
    by (simp add: basic_config_fields save_config_limit_fields newest_newest)
  have tg: "tn_get (basic_config (save_config_limit c)) = newest 20 tn_time (tn_get c)"
    using t by (simp add: tn_get_def)
  show ?thesis
    unfolding Let_def w n tg t
    using newest_evicts_oldest [of "notified_entries c" 20 ne_time]
      newest_evicts_oldest [of "tn_get c" 20 tn_time]
    by (simp add: basic_config_fields save_config_limit_fields length_newest)
qed

lemma ex_valid: "is_valid_page ex_soup"
  by (simp add: is_valid_page_def ex_soup_def startswith_def)

lemma ex_discover: "discover ex_soup \<noteq> []"
  by (simp add: discover_def selectors_to_try_def ex_soup_def Let_def)

lemma ex_full_length: "length (notified_entries ex_full_config) = 60"
  by (simp add: ex_full_config_def ex_entries_def)

lemma ex_pass_length:
  "length (notified_entries (fst (process_posts (\<lambda>i. 0) (\<lambda>i. True) 0 ex_full_config
      (discover ex_soup)))) = 61"
  by code_simp

theorem stores_capped_before_persist_witness:
  "is_valid_page ex_soup \<and> discover ex_soup \<noteq> []
   \<and> length (notified_entries (fst (process_posts (\<lambda>i. 0) (\<lambda>i. True) 0 ex_full_config
        (discover ex_soup)))) = 61
   \<and> length (notified_entries (fst (limit_stores
        (fst (process_posts (\<lambda>i. 0) (\<lambda>i. True) 0 ex_full_config (discover ex_soup)))
        (list_ex sets_config_changed
           (snd (process_posts (\<lambda>i. 0) (\<lambda>i. True) 0 ex_full_config (discover ex_soup))))))) = 50
   \<and> length (notified_entries (ar_config (check_page ex_big_json_len (\<lambda>i. 0) (\<lambda>i. True)
         ex_full_config False 0 ex_soup))) = 50"
proof -
  from stores_capped_before_persist [OF ex_valid ex_discover, of "\<lambda>i. 0" "\<lambda>i. True"
      ex_full_config ex_big_json_len False 0]
  have a: "length (notified_entries (fst (limit_stores
        (fst (process_posts (\<lambda>i. 0) (\<lambda>i. True) 0 ex_full_config (discover ex_soup)))
        (list_ex sets_config_changed
           (snd (process_posts (\<lambda>i. 0) (\<lambda>i. True) 0 ex_full_config (discover ex_soup)))))))
      = min 50 (length (notified_entries (fst (process_posts (\<lambda>i. 0) (\<lambda>i. True) 0
          ex_full_config (discover ex_soup)))))"
    and b: "ar_config (check_page ex_big_json_len (\<lambda>i. 0) (\<lambda>i. True) ex_full_config False 0 ex_soup)
      = fst (limit_stores
        (fst (process_posts (\<lambda>i. 0) (\<lambda>i. True) 0 ex_full_config (discover ex_soup)))
        (list_ex sets_config_changed
           (snd (process_posts (\<lambda>i. 0) (\<lambda>i. True) 0 ex_full_config (discover ex_soup)))))"
    unfolding Let_def by blast+
  show ?thesis using a b ex_pass_length ex_valid ex_discover by simp
qed

theorem save_config_oversize_witness:
  "ex_big_json_len (save_config_limit ex_full_config) > 1024 * 1024
   \<and> length (notified_entries ex_full_config) = 60
   \<and> length (notified_entries (snd (save_config ex_big_json_len ex_full_config))) = 20
   \<and> cfg_keywords (snd (save_config ex_big_json_len ex_full_config)) = [''vps'']"
proof -
  have h: "ex_big_json_len (save_config_limit ex_full_config) > 1024 * 1024"
    by (simp add: ex_big_json_len_def)
  have k: "cfg_keywords ex_full_config = [''vps'']"
    by (simp add: ex_full_config_def ex_config_def)
  from save_config_oversize [of ex_big_json_len ex_full_config, OF h]
  have a: "cfg_keywords (snd (save_config ex_big_json_len ex_full_config))
             = cfg_keywords ex_full_config"
    and b: "length (notified_entries (snd (save_config ex_big_json_len ex_full_config)))
             = min 20 (length (notified_entries ex_full_config))"
    unfolding Let_def by blast+
  show ?thesis using a b h k ex_full_length by simp
qed

section \<open>The gates\<close>

lemma delete_filter: "AList.delete k t = filter (\<lambda>item. fst item \<noteq> k) t"
  by (induction t) auto

lemma fold_delete_filter: "fold AList.delete ks t = filter (\<lambda>item. fst item \<notin> set ks) t"
proof (induction ks arbitrary: t)
  case Nil
  show ?case by simp
next
  case (Cons k ks)
  have "fold AList.delete (k # ks) t = filter (\<lambda>item. fst item \<notin> set ks) (AList.delete k t)"
    by (simp add: Cons.IH)
  also have "\<dots> = filter (\<lambda>item. fst item \<notin> set (k # ks)) t"
    unfolding delete_filter filter_filter by (rule filter_cong) auto
  finally show ?case .
qed

lemma purge_fields:
  "notified_entries (purge_titles now c) = notified_entries c"
  "cfg_keywords (purge_titles now c) = cfg_keywords c"
  "telegram (purge_titles now c) = telegram c"
  "tn_get (purge_titles now c) = fold AList.delete (title_cleanup now (tn_get c)) (tn_get c)"
  "(title_notifications (purge_titles now c) = None) = (title_notifications c = None)"
  by (simp_all add: purge_titles_def tn_get_def title_cleanup_def split: option.splits)

lemma purge_subset: "set (tn_get (purge_titles now c)) \<subseteq> set (tn_get c)"
  by (auto simp: purge_fields fold_delete_filter)

lemma purge_no_expired:
  assumes "item \<in> set (tn_get (purge_titles now c))"
  shows "elapsed now (tn_time (snd item)) \<le> 86400 * 1000000"
proof (rule ccontr)
  assume "\<not> elapsed now (tn_time (snd item)) \<le> 86400 * 1000000"
  moreover have "item \<in> set (tn_get c)" using assms purge_subset by blast
  ultimately have "fst item \<in> set (title_cleanup now (tn_get c))"
    by (force simp: title_cleanup_def)
  with assms show False by (simp add: purge_fields fold_delete_filter)
qed

lemma purge_keeps:
  assumes "distinct (map fst (tn_get c))" and "item \<in> set (tn_get c)"
    and "elapsed now (tn_time (snd item)) \<le> 86400 * 1000000"
  shows "item \<in> set (tn_get (purge_titles now c))"
proof -
  have "fst item \<notin> set (title_cleanup now (tn_get c))"
  proof
    assume "fst item \<in> set (title_cleanup now (tn_get c))"
    then obtain other where o: "other \<in> set (tn_get c)" "fst other = fst item"
      "elapsed now (tn_time (snd other)) > 86400 * 1000000"
      by (auto simp: title_cleanup_def)
    from assms(1) o(1,2) assms(2) have "other = item"
      by (metis eq_key_imp_eq_value prod.collapse)
    with o(3) assms(3) show False by simp
  qed
  with assms(2) show ?thesis by (simp add: purge_fields fold_delete_filter)
qed

lemma purge_distinct:
  "distinct (map fst (tn_get c)) \<Longrightarrow> distinct (map fst (tn_get (purge_titles now c)))"
  by (simp add: purge_fields fold_delete_filter distinct_map_filter)

lemma title_already_notified_iff:
  "title_already_notified nt now t \<longleftrightarrow>
     (\<exists>item\<in>set t. (nt = fst item \<or> str_in nt (fst item) \<or> str_in (fst item) nt)
                   \<and> elapsed now (tn_time (snd item)) < 7200 * 1000000)"
  by (induction t) auto

lemma update_mem_same: "(k, v) \<in> set (AList.update k v t)"
  by (induction t) auto

lemma update_mem_other: "item \<in> set t \<Longrightarrow> fst item \<noteq> k \<Longrightarrow> item \<in> set (AList.update k v t)"
  by (induction t) auto

lemma delete_absent: "k \<notin> set (map fst d) \<Longrightarrow> AList.delete k d = d"
  by (induction d) auto

text \<open>The branches of check_item.\<close>

lemma check_item_title_gate:
  "title_already_notified (strip (lower title)) now (tn_get (purge_titles now c)) \<Longrightarrow>
   check_item c now ok title link = (purge_titles now c, TitleAlreadyNotified)"
  by (simp add: check_item_def Let_def)

lemma check_item_id_gate:
  "\<not> title_already_notified (strip (lower title)) now (tn_get (purge_titles now c)) \<Longrightarrow>
   entry_id_of link \<in> set (map fst (notified_entries c)) \<Longrightarrow>
   check_item c now ok title link = (purge_titles now c, IdAlreadyNotified)"
  by (simp add: check_item_def Let_def purge_fields)

lemma check_item_no_keyword:
  "\<not> title_already_notified (strip (lower title)) now (tn_get (purge_titles now c)) \<Longrightarrow>
   entry_id_of link \<notin> set (map fst (notified_entries c)) \<Longrightarrow>
   match_keywords (cfg_keywords c) title = [] \<Longrightarrow>
   check_item c now ok title link = (purge_titles now c, NoKeywordMatch)"
  by (simp add: check_item_def Let_def purge_fields)

lemma check_item_error:
  "\<not> title_already_notified (strip (lower title)) now (tn_get (purge_titles now c)) \<Longrightarrow>
   entry_id_of link \<notin> set (map fst (notified_entries c)) \<Longrightarrow>
   match_keywords (cfg_keywords c) title \<noteq> [] \<Longrightarrow>
   title_notifications c = None \<Longrightarrow>
   check_item c now ok title link = (purge_titles now c, ItemError)"
  by (simp add: check_item_def Let_def purge_fields purge_titles_def)

lemma check_item_write:
  assumes "\<not> title_already_notified (strip (lower title)) now (tn_get (purge_titles now c))"
    and "entry_id_of link \<notin> set (map fst (notified_entries c))"
    and "match_keywords (cfg_keywords c) title \<noteq> []"
    and "title_notifications c \<noteq> None"
  shows "snd (check_item c now ok title link) =
           (if send_telegram_message ok c
            then Sent (match_keywords (cfg_keywords c) title) title link
            else SendFailed (match_keywords (cfg_keywords c) title) title link)"
    and "tn_get (fst (check_item c now ok title link)) =
           AList.update (strip (lower title))
             \<lparr>tn_title = title, tn_link = link, tn_time = strftime now\<rparr>
             (tn_get (purge_titles now c))"
    and "notified_entries (fst (check_item c now ok title link)) =
           (if send_telegram_message ok c
            then AList.update (entry_id_of link)
                   \<lparr>ne_title = title, ne_link = link,
                    ne_keywords = match_keywords (cfg_keywords c) title,
                    ne_time = strftime now\<rparr> (notified_entries c)
            else notified_entries c)"
    and "cfg_keywords (fst (check_item c now ok title link)) = cfg_keywords c"
    and "telegram (fst (check_item c now ok title link)) = telegram c"
proof -
  obtain t where t: "title_notifications (purge_titles now c) = Some t"
    using assms(4) purge_fields(5) [of now c] by (cases "title_notifications (purge_titles now c)") auto
  have tg: "tn_get (purge_titles now c) = t" using t by (simp add: tn_get_def)
  note defs = check_item_def Let_def purge_fields t send_telegram_message_def tn_get_def
  show "snd (check_item c now ok title link) =
           (if send_telegram_message ok c
            then Sent (match_keywords (cfg_keywords c) title) title link
            else SendFailed (match_keywords (cfg_keywords c) title) title link)"
    using assms tg by (simp add: defs)
  show "tn_get (fst (check_item c now ok title link)) =
           AList.update (strip (lower title))
             \<lparr>tn_title = title, tn_link = link, tn_time = strftime now\<rparr>
             (tn_get (purge_titles now c))"
    using assms tg by (simp add: defs)
  show "notified_entries (fst (check_item c now ok title link)) =
           (if send_telegram_message ok c
            then AList.update (entry_id_of link)
                   \<lparr>ne_title = title, ne_link = link,
                    ne_keywords = match_keywords (cfg_keywords c) title,
                    ne_time = strftime now\<rparr> (notified_entries c)
            else notified_entries c)"
    using assms tg by (simp add: defs delete_update_same delete_absent)
  show "cfg_keywords (fst (check_item c now ok title link)) = cfg_keywords c"
    using assms tg by (simp add: defs)
  show "telegram (fst (check_item c now ok title link)) = telegram c"
    using assms tg by (simp add: defs)
qed

lemma check_item_cases [case_names title_gate id_gate no_keyword item_error item_write]:
  obtains
    "title_already_notified (strip (lower title)) now (tn_get (purge_titles now c))"
    "check_item c now ok title link = (purge_titles now c, TitleAlreadyNotified)"
  | "\<not> title_already_notified (strip (lower title)) now (tn_get (purge_titles now c))"
    "entry_id_of link \<in> set (map fst (notified_entries c))"
    "check_item c now ok title link = (purge_titles now c, IdAlreadyNotified)"
  | "\<not> title_already_notified (strip (lower title)) now (tn_get (purge_titles now c))"
    "entry_id_of link \<notin> set (map fst (notified_entries c))"
    "match_keywords (cfg_keywords c) title = []"
    "check_item c now ok title link = (purge_titles now c, NoKeywordMatch)"
  | "\<not> title_already_notified (strip (lower title)) now (tn_get (purge_titles now c))"
    "entry_id_of link \<notin> set (map fst (notified_entries c))"
    "title_notifications c = None"
    "check_item c now ok title link = (purge_titles now c, ItemError)"
  | "\<not> title_already_notified (strip (lower title)) now (tn_get (purge_titles now c))"
    "entry_id_of link \<notin> set (map fst (notified_entries c))"
    "match_keywords (cfg_keywords c) title \<noteq> []"
    "title_notifications c \<noteq> None"
proof (cases "title_already_notified (strip (lower title)) now (tn_get (purge_titles now c))")
  case True
  then show ?thesis using check_item_title_gate that(1) by blast
next
  case gate: False
  show ?thesis
  proof (cases "entry_id_of link \<in> set (map fst (notified_entries c))")
    case True
    then show ?thesis using gate check_item_id_gate that(2) by blast
  next
    case id: False
    show ?thesis
    proof (cases "match_keywords (cfg_keywords c) title = []")
      case True
      then show ?thesis using gate id check_item_no_keyword that(3) by blast
    next
      case kw: False
      show ?thesis
      proof (cases "title_notifications c = None")
        case True
        then show ?thesis using gate id kw check_item_error that(4) by blast
      next
        case False
        then show ?thesis using gate id kw that(5) by blast
      qed
    qed
  qed
qed

lemma check_item_changed_iff:
  "sets_config_changed (snd (check_item c now ok title link)) \<longleftrightarrow>
     \<not> title_already_notified (strip (lower title)) now (tn_get (purge_titles now c))
     \<and> entry_id_of link \<notin> set (map fst (notified_entries c))
     \<and> match_keywords (cfg_keywords c) title \<noteq> []
     \<and> title_notifications c \<noteq> None"
proof (cases rule: check_item_cases [where c=c and now=now and title=title and link=link and ok=ok])
  case title_gate
  then show ?thesis by simp
next
  case id_gate
  then show ?thesis by simp
next
  case no_keyword
  then show ?thesis by simp
next
  case item_error
  then show ?thesis by simp
next
  case item_write
  then show ?thesis using check_item_write(1) [OF item_write, of ok] by simp
qed

lemma update_subset: "set (AList.update k v t) \<subseteq> insert (k, v) (set t)"
  by (induction t) auto

lemma check_item_distinct:
  assumes "distinct (map fst (tn_get c))"
  shows "distinct (map fst (tn_get (fst (check_item c now ok title link))))"
proof (cases rule: check_item_cases [where c=c and now=now and title=title and link=link and ok=ok])
  case item_write
  show ?thesis
    unfolding check_item_write(2) [OF item_write]
    by (rule distinct_update) (rule purge_distinct [OF assms])
qed (simp_all add: purge_distinct [OF assms])

lemma strftime_lower:
  assumes "\<not> elapsed now t < 7200 * 1000000"
  shows "t \<le> strftime now"
proof -
  have "(t + 7200) * 1000000 \<le> now"
    using assms by (simp add: elapsed_def algebra_simps)
  then have "((t + 7200) * 1000000) div 1000000 \<le> now div 1000000"
    by (rule zdiv_mono1) simp
  then show ?thesis by (simp add: strftime_def)
qed

lemma elapsed_mono: "t1 \<le> t \<Longrightarrow> elapsed now t \<le> elapsed now t1"
  by (simp add: elapsed_def)

lemma elapsed_strftime: "elapsed now (strftime now) \<le> 86400 * 1000000"
proof -
  have "elapsed now (strftime now) = now mod 1000000"
    by (simp add: elapsed_def strftime_def minus_div_mult_eq_mod)
  moreover have "now mod 1000000 < 1000000" by simp
  ultimately show ?thesis by simp
qed

lemma purge_keeps_since:
  assumes "distinct (map fst (tn_get c))" and "has_title_since c k t1"
    and "elapsed now t1 \<le> 86400 * 1000000"
  shows "has_title_since (purge_titles now c) k t1"
proof -
  from assms(2) obtain item where i: "item \<in> set (tn_get c)" "fst item = k" "t1 \<le> tn_time (snd item)"
    by (auto simp: has_title_since_def)
  have "elapsed now (tn_time (snd item)) \<le> 86400 * 1000000"
    using elapsed_mono [OF i(3), of now] assms(3) by simp
  then have "item \<in> set (tn_get (purge_titles now c))"
    using purge_keeps [OF assms(1) i(1)] by simp
  with i show ?thesis by (auto simp: has_title_since_def)
qed

lemma check_item_keeps_since:
  assumes "distinct (map fst (tn_get c))" and "has_title_since c k t1"
    and "elapsed now t1 \<le> 86400 * 1000000"
  shows "has_title_since (fst (check_item c now ok title link)) k t1"
proof (cases rule: check_item_cases [where c=c and now=now and title=title and link=link and ok=ok])
  case item_write
  from purge_keeps_since [OF assms] obtain item
    where i: "item \<in> set (tn_get (purge_titles now c))" "fst item = k" "t1 \<le> tn_time (snd item)"
    by (auto simp: has_title_since_def)
  let ?v = "\<lparr>tn_title = title, tn_link = link, tn_time = strftime now\<rparr>"
  show ?thesis
  proof (cases "strip (lower title) = k")
    case True
    have "\<not> elapsed now (tn_time (snd item)) < 7200 * 1000000"
      using item_write(1) i(1,2) True by (auto simp: title_already_notified_iff)
    then have "t1 \<le> strftime now" using strftime_lower i(3) by fastforce
    moreover have "(k, ?v) \<in> set (tn_get (fst (check_item c now ok title link)))"
      unfolding check_item_write(2) [OF item_write] True by (rule update_mem_same)
    ultimately show ?thesis by (force simp: has_title_since_def)
  next
    case False
    then have "item \<in> set (tn_get (fst (check_item c now ok title link)))"
      unfolding check_item_write(2) [OF item_write] using i(1,2) by (simp add: update_mem_other)
    with i show ?thesis by (auto simp: has_title_since_def)
  qed
qed (simp_all add: purge_keeps_since [OF assms])

lemma gate_from_since:
  assumes "distinct (map fst (tn_get c))" and "has_title_since c k t1"
    and "elapsed now t1 < 7200 * 1000000"
    and "nt = k \<or> str_in nt k \<or> str_in k nt"
  shows "title_already_notified nt now (tn_get (purge_titles now c))"
proof -
  have "elapsed now t1 \<le> 86400 * 1000000" using assms(3) by simp
  from purge_keeps_since [OF assms(1,2) this] obtain item
    where i: "item \<in> set (tn_get (purge_titles now c))" "fst item = k" "t1 \<le> tn_time (snd item)"
    by (auto simp: has_title_since_def)
  have "elapsed now (tn_time (snd item)) < 7200 * 1000000"
    using elapsed_mono [OF i(3), of now] assms(3) by simp
  with i assms(4) show ?thesis unfolding title_already_notified_iff by blast
qed

lemma process_post_cases:
  "process_post c now ok p = (c, snd (process_post c now ok p)) \<and> \<not> sets_config_changed (snd (process_post c now ok p))
   \<or> (\<exists>title link. process_post c now ok p = check_item c now ok title link)"
  by (auto simp: process_post_def extract_item_def Let_def split: sum.splits option.splits prod.splits)

lemma process_post_distinct:
  assumes "distinct (map fst (tn_get c))"
  shows "distinct (map fst (tn_get (fst (process_post c now ok p))))"
  using process_post_cases [of c now ok p] check_item_distinct [OF assms]
  by (metis assms fst_conv)

lemma process_post_keeps_since:
  assumes "distinct (map fst (tn_get c))" and "has_title_since c k t1"
    and "elapsed now t1 \<le> 86400 * 1000000"
  shows "has_title_since (fst (process_post c now ok p)) k t1"
  using process_post_cases [of c now ok p] check_item_keeps_since [OF assms]
  by (metis assms(2) fst_conv)

lemma process_posts_keeps:
  assumes "distinct (map fst (tn_get c))" and "has_title_since c k t1"
    and "\<forall>j. elapsed (clock j) t1 \<le> 86400 * 1000000"
  shows "distinct (map fst (tn_get (fst (process_posts clock http i c ps))))
       \<and> has_title_since (fst (process_posts clock http i c ps)) k t1"
  using assms
proof (induction ps arbitrary: c i)
  case Nil
  then show ?case by simp
next
  case (Cons p ps)
  let ?c1 = "fst (process_post c (clock i) (http i) p)"
  have d: "distinct (map fst (tn_get ?c1))"
    by (rule process_post_distinct [OF Cons.prems(1)])
  have h: "has_title_since ?c1 k t1"
    by (rule process_post_keeps_since [OF Cons.prems(1,2)]) (use Cons.prems(3) in blast)
  have "fst (process_posts clock http i c (p # ps)) = fst (process_posts clock http (Suc i) ?c1 ps)"
    by (simp add: split_beta)
  with Cons.IH [OF d h Cons.prems(3)] show ?case by simp
qed

lemma check_item_skip_state:
  assumes "entry_id_of link \<in> set (map fst (notified_entries c))"
  shows "fst (check_item c now ok title link) = purge_titles now c"
    and "snd (check_item c now ok title link) = TitleAlreadyNotified
         \<or> snd (check_item c now ok title link) = IdAlreadyNotified"
  using assms
  by (cases rule: check_item_cases [where c=c and now=now and title=title and link=link and ok=ok];
      simp)+

lemma purge_exact:
  assumes "distinct (map fst (tn_get c))"
  shows "set (tn_get (purge_titles now c)) =
           {item \<in> set (tn_get c). elapsed now (tn_time (snd item)) \<le> 86400 * 1000000}"
  using purge_subset [of now c] purge_no_expired [of _ now c] purge_keeps [OF assms, of _ now]
  by blast

text \<open>
  C1, as amended. An item whose entry id is already a key of \<open>notified_entries\<close> is
  skipped by one of the two gates: nothing is sent, \<open>notified_entries\<close> is unchanged
  and no record is written. The record changes only by the purge of title records older
  than 24 hours, which runs before the gates: the title store afterwards is the
  part of the title store before that is not older than 24 hours.
\<close>

theorem identity_gate_skips:
  assumes "entry_id_of link \<in> set (map fst (notified_entries c))"
  shows "fst (check_item c now ok title link) = purge_titles now c
       \<and> (snd (check_item c now ok title link) = TitleAlreadyNotified
          \<or> snd (check_item c now ok title link) = IdAlreadyNotified)
       \<and> notified_entries (fst (check_item c now ok title link)) = notified_entries c
       \<and> set (tn_get (fst (check_item c now ok title link))) \<subseteq> set (tn_get c)
       \<and> (distinct (map fst (tn_get c)) \<longrightarrow>
            set (tn_get (fst (check_item c now ok title link))) =
              {item \<in> set (tn_get c). elapsed now (tn_time (snd item)) \<le> 86400 * 1000000})"
  using check_item_skip_state [OF assms, of now ok title] purge_subset [of now c]
    purge_exact [of c now]
  by (simp add: purge_fields(1))

lemma check_item_first_write:
  assumes "distinct (map fst (tn_get c))"
    and "sets_config_changed (snd (check_item c now ok title link))"
  shows "distinct (map fst (tn_get (fst (check_item c now ok title link))))"
    and "has_title_since (fst (check_item c now ok title link)) (strip (lower title)) (strftime now)"
proof -
  show "distinct (map fst (tn_get (fst (check_item c now ok title link))))"
    by (rule check_item_distinct [OF assms(1)])
  have w: "\<not> title_already_notified (strip (lower title)) now (tn_get (purge_titles now c))"
    "entry_id_of link \<notin> set (map fst (notified_entries c))"
    "match_keywords (cfg_keywords c) title \<noteq> []"
    "title_notifications c \<noteq> None"
    using assms(2) unfolding check_item_changed_iff by simp_all
  have "(strip (lower title), \<lparr>tn_title = title, tn_link = link, tn_time = strftime now\<rparr>)
          \<in> set (tn_get (fst (check_item c now ok title link)))"
    unfolding check_item_write(2) [OF w] by (rule update_mem_same)
  then show "has_title_since (fst (check_item c now ok title link)) (strip (lower title)) (strftime now)"
    by (force simp: has_title_since_def)
qed

text \<open>
  C2, as amended. The first item passed both gates and matched a keyword, so its title
  record was written (whether or not the send succeeded); other items of the same pass
  are evaluated in between, none later than 24 hours after the first's recorded time;
  the second item's normalized title equals the first's, contains it or is contained in
  it, and it is evaluated less than 7200 seconds after the first's recorded time (its
  evaluation time cut to whole seconds). Then the second item is skipped by the title
  gate, whatever its link.
\<close>

theorem title_gate_skips:
  assumes "distinct (map fst (tn_get c))"
    and "sets_config_changed (snd (check_item c now1 ok1 title1 link1))"
    and "\<forall>j. elapsed (clock j) (strftime now1) \<le> 86400 * 1000000"
    and "elapsed now2 (strftime now1) < 7200 * 1000000"
    and "strip (lower title2) = strip (lower title1)
         \<or> str_in (strip (lower title2)) (strip (lower title1))
         \<or> str_in (strip (lower title1)) (strip (lower title2))"
  shows "let c1 = fst (check_item c now1 ok1 title1 link1);
             c2 = fst (process_posts clock http i c1 ps)
         in check_item c2 now2 ok2 title2 link2 = (purge_titles now2 c2, TitleAlreadyNotified)"
proof -
  define c1 where "c1 = fst (check_item c now1 ok1 title1 link1)"
  define c2 where "c2 = fst (process_posts clock http i c1 ps)"
  have d1: "distinct (map fst (tn_get c1))"
    and h1: "has_title_since c1 (strip (lower title1)) (strftime now1)"
    unfolding c1_def by (rule check_item_first_write [OF assms(1,2)])+
  have d2: "distinct (map fst (tn_get c2))"
    and h2: "has_title_since c2 (strip (lower title1)) (strftime now1)"
    unfolding c2_def using process_posts_keeps [OF d1 h1 assms(3)] by blast+
  have "title_already_notified (strip (lower title2)) now2 (tn_get (purge_titles now2 c2))"
    by (rule gate_from_since [OF d2 h2 assms(4,5)])
  then have "check_item c2 now2 ok2 title2 link2 = (purge_titles now2 c2, TitleAlreadyNotified)"
    by (rule check_item_title_gate)
  then show ?thesis unfolding Let_def c1_def [symmetric] c2_def [symmetric] .
qed

lemma send_failed_branch:
  assumes "snd (check_item c now ok title link) = SendFailed ks title link"
  shows "\<not> title_already_notified (strip (lower title)) now (tn_get (purge_titles now c))"
    and "entry_id_of link \<notin> set (map fst (notified_entries c))"
    and "match_keywords (cfg_keywords c) title \<noteq> []"
    and "title_notifications c \<noteq> None"
    and "\<not> send_telegram_message ok c"
proof -
  have "sets_config_changed (snd (check_item c now ok title link))" using assms by simp
  then show w: "\<not> title_already_notified (strip (lower title)) now (tn_get (purge_titles now c))"
    "entry_id_of link \<notin> set (map fst (notified_entries c))"
    "match_keywords (cfg_keywords c) title \<noteq> []"
    "title_notifications c \<noteq> None"
    unfolding check_item_changed_iff by simp_all
  show "\<not> send_telegram_message ok c"
    using check_item_write(1) [OF w, of ok] assms by (auto split: if_splits)
qed

text \<open>
  C3. When the send fails for an item that matched, the notified-entries record just
  written is removed (the store is as before the item), the title record just written
  stays, an evaluation of the same item less than 7200 seconds after the recorded time is
  skipped by the title gate, and the identity gate never stops the item.
\<close>

theorem failed_send_rollback:
  assumes "distinct (map fst (tn_get c))"
    and "snd (check_item c now ok title link) = SendFailed ks title link"
  shows "let c' = fst (check_item c now ok title link)
         in entry_id_of link \<notin> set (map fst (notified_entries c'))
          \<and> notified_entries c' = notified_entries c
          \<and> map_of (tn_get c') (strip (lower title)) =
               Some \<lparr>tn_title = title, tn_link = link, tn_time = strftime now\<rparr>
          \<and> (\<forall>now2 ok2. elapsed now2 (strftime now) < 7200 * 1000000 \<longrightarrow>
                check_item c' now2 ok2 title link = (purge_titles now2 c', TitleAlreadyNotified))
          \<and> (\<forall>now2 ok2. snd (check_item c' now2 ok2 title link) \<noteq> IdAlreadyNotified)"
proof -
  define c' where "c' = fst (check_item c now ok title link)"
  note b = send_failed_branch [OF assms(2)]
  have n: "notified_entries c' = notified_entries c"
    unfolding c'_def check_item_write(3) [OF b(1-4)] using b(5) by simp
  have t: "tn_get c' = AList.update (strip (lower title))
             \<lparr>tn_title = title, tn_link = link, tn_time = strftime now\<rparr>
             (tn_get (purge_titles now c))"
    unfolding c'_def by (rule check_item_write(2) [OF b(1-4)])
  have m: "map_of (tn_get c') (strip (lower title)) =
             Some \<lparr>tn_title = title, tn_link = link, tn_time = strftime now\<rparr>"
    unfolding t by (simp add: update_conv')
  have "sets_config_changed (snd (check_item c now ok title link))" using assms(2) by simp
  from check_item_first_write [OF assms(1) this]
  have d: "distinct (map fst (tn_get c'))"
    and h: "has_title_since c' (strip (lower title)) (strftime now)"
    unfolding c'_def by blast+
  have g: "check_item c' now2 ok2 title link = (purge_titles now2 c', TitleAlreadyNotified)"
    if "elapsed now2 (strftime now) < 7200 * 1000000" for now2 ok2
    by (rule check_item_title_gate) (rule gate_from_since [OF d h that], simp)
  have i: "snd (check_item c' now2 ok2 title link) \<noteq> IdAlreadyNotified" for now2 ok2
  proof (cases rule: check_item_cases [where c=c' and now=now2 and title=title and link=link and ok=ok2])
    case id_gate
    then show ?thesis using n b(2) by simp
  next
    case item_write
    then show ?thesis using check_item_write(1) [OF item_write, of ok2] by simp
  qed simp_all
  show ?thesis
    unfolding Let_def c'_def [symmetric] using n b(2) m g i by simp
qed

lemma check_item_no_expired:
  assumes "item \<in> set (tn_get (fst (check_item c now ok title link)))"
  shows "elapsed now (tn_time (snd item)) \<le> 86400 * 1000000"
proof (cases rule: check_item_cases [where c=c and now=now and title=title and link=link and ok=ok])
  case item_write
  from assms have "item \<in> insert (strip (lower title),
        \<lparr>tn_title = title, tn_link = link, tn_time = strftime now\<rparr>)
      (set (tn_get (purge_titles now c)))"
    unfolding check_item_write(2) [OF item_write] using update_subset by fastforce
  then show ?thesis using elapsed_strftime [of now] purge_no_expired [of item now c] by auto
qed (use assms purge_no_expired [of item now c] in simp_all)

lemma check_item_title_outcome_iff:
  "snd (check_item c now ok title link) = TitleAlreadyNotified \<longleftrightarrow>
     title_already_notified (strip (lower title)) now (tn_get (purge_titles now c))"
proof (cases rule: check_item_cases [where c=c and now=now and title=title and link=link and ok=ok])
  case item_write
  then show ?thesis using check_item_write(1) [OF item_write, of ok] by simp
qed simp_all

text \<open>
  C5. Every title record more than 86400 seconds older than the current time is deleted
  before the title gate is evaluated, whatever the size of the store: the gate reads the
  purged store, no such record is in the store after the item, and a record that stops
  an item is less than 7200 seconds old.
\<close>

theorem expired_titles_purged:
  "(\<forall>item\<in>set (tn_get c). elapsed now (tn_time (snd item)) > 86400 * 1000000 \<longrightarrow>
        item \<notin> set (tn_get (purge_titles now c)))
   \<and> (snd (check_item c now ok title link) = TitleAlreadyNotified \<longleftrightarrow>
        title_already_notified (strip (lower title)) now (tn_get (purge_titles now c)))
   \<and> (\<forall>item\<in>set (tn_get (fst (check_item c now ok title link))).
        elapsed now (tn_time (snd item)) \<le> 86400 * 1000000)
   \<and> (snd (check_item c now ok title link) = TitleAlreadyNotified \<longrightarrow>
        (\<exists>item\<in>set (tn_get c).
            elapsed now (tn_time (snd item)) < 7200 * 1000000
          \<and> (strip (lower title) = fst item \<or> str_in (strip (lower title)) (fst item)
             \<or> str_in (fst item) (strip (lower title)))))"
proof -
  have a: "\<forall>item\<in>set (tn_get c). elapsed now (tn_time (snd item)) > 86400 * 1000000 \<longrightarrow>
        item \<notin> set (tn_get (purge_titles now c))"
    using purge_no_expired [of _ now c] by fastforce
  have d: "\<exists>item\<in>set (tn_get c).
            elapsed now (tn_time (snd item)) < 7200 * 1000000
          \<and> (strip (lower title) = fst item \<or> str_in (strip (lower title)) (fst item)
             \<or> str_in (fst item) (strip (lower title)))"
    if "snd (check_item c now ok title link) = TitleAlreadyNotified"
    using that purge_subset [of now c]
    unfolding check_item_title_outcome_iff title_already_notified_iff by blast
  show ?thesis
    using a d check_item_title_outcome_iff [of c now ok title link]
      check_item_no_expired [of _ c now ok title link]
    by blast
qed

section \<open>The gates on concrete inputs\<close>

text \<open>
  C1 as stated fails: the item's id is in \<open>notified_entries\<close> and the item is skipped,
  but the title record under its normalized title, written more than 24 hours
  before, is deleted while the item is processed.
\<close>

theorem identity_gate_counterexample:
  "entry_id_of ex_link1 \<in> set (map fst (notified_entries ex_old_config))
   \<and> map_of (tn_get ex_old_config) (strip (lower ''Deal A'')) = Some ex_old_title
   \<and> snd (check_item ex_old_config 90000000000 True ''Deal A'' ex_link1) = IdAlreadyNotified
   \<and> map_of (tn_get (fst (check_item ex_old_config 90000000000 True ''Deal A'' ex_link1)))
        (strip (lower ''Deal A'')) = None"
  by code_simp

theorem identity_gate_skips_witness:
  "entry_id_of ex_link1 \<in> set (map fst (notified_entries ex_old_config))
   \<and> fst (check_item ex_old_config 90000000000 True ''Deal A'' ex_link1)
       = purge_titles 90000000000 ex_old_config
   \<and> notified_entries (fst (check_item ex_old_config 90000000000 True ''Deal A'' ex_link1))
       = notified_entries ex_old_config"
proof -
  have h: "entry_id_of ex_link1 \<in> set (map fst (notified_entries ex_old_config))"
    by code_simp
  from identity_gate_skips [OF h, of 90000000000 True "''Deal A''"] h show ?thesis by blast
qed

text \<open>
  C2 as stated fails: \<open>sale\<close> is contained in \<open>flash sale vps\<close> and the two are evaluated
  ten minutes apart, but the first matches no keyword, writes no title record, and the
  second is notified.
\<close>

theorem title_gate_counterexample:
  "str_in (strip (lower ''sale'')) (strip (lower ''flash sale vps''))
   \<and> elapsed 600000000 (strftime 0) < 7200 * 1000000
   \<and> check_item ex_config 0 True ''sale'' ex_link1 = (ex_config, NoKeywordMatch)
   \<and> snd (check_item ex_config 600000000 True ''flash sale vps'' ex_link2)
       = Sent [''vps''] ''flash sale vps'' ex_link2"
  by code_simp

theorem title_gate_skips_witness:
  "distinct (map fst (tn_get ex_deal_config))
   \<and> sets_config_changed (snd (check_item ex_deal_config 900000 True ''Deal A'' ex_link1))
   \<and> (\<forall>j. elapsed ((\<lambda>j. 300000000) j) (strftime 900000) \<le> 86400 * 1000000)
   \<and> elapsed 600000000 (strftime 900000) < 7200 * 1000000
   \<and> strip (lower ''deal a '') = strip (lower ''Deal A'')
   \<and> snd (check_item
            (fst (process_posts (\<lambda>j. 300000000) (\<lambda>j. True) 0
                    (fst (check_item ex_deal_config 900000 True ''Deal A'' ex_link1)) ex_between))
            600000000 True ''deal a '' ex_link2) = TitleAlreadyNotified"
proof -
  have h1: "distinct (map fst (tn_get ex_deal_config))" by code_simp
  have h2: "sets_config_changed (snd (check_item ex_deal_config 900000 True ''Deal A'' ex_link1))"
    by code_simp
  have h3: "\<forall>j. elapsed ((\<lambda>j. 300000000) j) (strftime 900000) \<le> 86400 * 1000000"
    by (simp add: elapsed_def strftime_def)
  have h4: "elapsed 600000000 (strftime 900000) < 7200 * 1000000"
    by (simp add: elapsed_def strftime_def)
  have h5: "strip (lower ''deal a '') = strip (lower ''Deal A'')" by code_simp
  have h5': "strip (lower ''deal a '') = strip (lower ''Deal A'')
         \<or> str_in (strip (lower ''deal a '')) (strip (lower ''Deal A''))
         \<or> str_in (strip (lower ''Deal A'')) (strip (lower ''deal a ''))"
    using h5 by blast
  from title_gate_skips [OF h1 h2 h3 h4 h5', of "\<lambda>j. True" 0 ex_between True ex_link2]
  have "snd (check_item
            (fst (process_posts (\<lambda>j. 300000000) (\<lambda>j. True) 0
                    (fst (check_item ex_deal_config 900000 True ''Deal A'' ex_link1)) ex_between))
            600000000 True ''deal a '' ex_link2) = TitleAlreadyNotified"
    unfolding Let_def by simp
  with h1 h2 h3 h4 h5 show ?thesis by blast
qed

theorem failed_send_rollback_witness:
  "distinct (map fst (tn_get ex_deal_config))
   \<and> snd (check_item ex_deal_config 900000 False ''Deal A'' ex_link1)
       = SendFailed [''Deal''] ''Deal A'' ex_link1
   \<and> entry_id_of ex_link1 \<notin> set (map fst (notified_entries
         (fst (check_item ex_deal_config 900000 False ''Deal A'' ex_link1))))
   \<and> snd (check_item (fst (check_item ex_deal_config 900000 False ''Deal A'' ex_link1))
            600000000 True ''Deal A'' ex_link1) = TitleAlreadyNotified"
proof -
  have h1: "distinct (map fst (tn_get ex_deal_config))" by code_simp
  have h2: "snd (check_item ex_deal_config 900000 False ''Deal A'' ex_link1)
       = SendFailed [''Deal''] ''Deal A'' ex_link1" by code_simp
  have h3: "elapsed 600000000 (strftime 900000) < 7200 * 1000000"
    by (simp add: elapsed_def strftime_def)
  from failed_send_rollback [OF h1 h2] h3
  have "entry_id_of ex_link1 \<notin> set (map fst (notified_entries
         (fst (check_item ex_deal_config 900000 False ''Deal A'' ex_link1))))"
    and "snd (check_item (fst (check_item ex_deal_config 900000 False ''Deal A'' ex_link1))
            600000000 True ''Deal A'' ex_link1) = TitleAlreadyNotified"
    unfolding Let_def by (blast, simp)
  with h1 h2 show ?thesis by blast
qed

theorem expired_titles_purged_witness:
  "(''deal a'', ex_old_title) \<in> set (tn_get ex_old_config)
   \<and> elapsed 90000000000 (tn_time (snd (''deal a'', ex_old_title))) > 86400 * 1000000
   \<and> (''deal a'', ex_old_title) \<notin> set (tn_get (purge_titles 90000000000 ex_old_config))"
proof -
  have h1: "(''deal a'', ex_old_title) \<in> set (tn_get ex_old_config)"
    by (simp add: ex_old_config_def tn_get_def)
  have h2: "elapsed 90000000000 (tn_time (snd (''deal a'', ex_old_title))) > 86400 * 1000000"
    by (simp add: elapsed_def ex_old_title_def)
  from expired_titles_purged [of ex_old_config 90000000000 True "''Deal A''" ex_link1] h1 h2
  have "(''deal a'', ex_old_title) \<notin> set (tn_get (purge_titles 90000000000 ex_old_config))"
    by blast
  with h1 h2 show ?thesis by blast
qed


section \<open>Finding items, titles and links\<close>

lemma try_selectors_find:
  "try_selectors sel ss =
     (case find (\<lambda>selector. 5 \<le> length (sel selector)) ss of
        None \<Rightarrow> []
      | Some selector \<Rightarrow> take 40 (sel selector))"
  by (induction ss) (auto simp: Let_def)

lemma potential_post_divs_filter:
  "length acc < 40 \<Longrightarrow>
   take 40 (potential_post_divs acc ds) =
     take 40 (acc @ filter (\<lambda>d. post_find_all_a d \<noteq> [] \<and> 20 < length (post_text d)) ds)"
proof (induction ds arbitrary: acc)
  case Nil
  then show ?case by simp
next
  case (Cons d ds)
  show ?case
  proof (cases "post_find_all_a d \<noteq> [] \<and> 20 < length (post_text d)")
    case False
    then show ?thesis using Cons by auto
  next
    case True
    show ?thesis
    proof (cases "length (acc @ [d]) \<ge> 40")
      case full: True
      then have "length (acc @ [d]) = 40" using Cons.prems by simp
      then show ?thesis using True full by (simp add: Let_def)
    next
      case False
      then have "length (acc @ [d]) < 40" by simp
      from Cons.IH [OF this] show ?thesis using True False by (simp add: Let_def)
    qed
  qed
qed

lemma fallback_divs_filter:
  "fallback_divs s =
     take 40 (filter (\<lambda>d. post_find_all_a d \<noteq> [] \<and> 20 < length (post_text d))
                (take 100 (soup_find_all_div s)))"
  unfolding fallback_divs_def using potential_post_divs_filter [of "[]"] by simp

lemma fallback_rows_tail:
  "fallback_rows s = take 39 (drop 1 (soup_select s ''table tr''))"
proof (cases "length (soup_select s ''table tr'') > 1")
  case True
  then have "length (take 40 (soup_select s ''table tr'')) > 1" by simp
  then show ?thesis
    by (simp add: fallback_rows_def Let_def drop_take)
next
  case False
  then have "drop 1 (soup_select s ''table tr'') = []" by simp
  with False show ?thesis by (auto simp: fallback_rows_def Let_def)
qed

text \<open>
  C6. The items are the first 40 matches of the first selector of the list with at least
  5 matches. When no selector has 5 matches, they are the first non-empty of: (a) the
  first 40 divs, among the first 100 of the page, that contain a link and more than 20
  characters of text; (b) the first 40 links matching the content-path patterns; (c) the
  table rows after the first, 39 at most. In every case there are at most 40 items.
\<close>

theorem discover_strategy:
  "discover s =
     (case find (\<lambda>selector. 5 \<le> length (soup_select s selector)) selectors_to_try of
        Some selector \<Rightarrow> take 40 (soup_select s selector)
      | None \<Rightarrow> if fallback_divs s \<noteq> [] then fallback_divs s
                else if fallback_links s \<noteq> [] then fallback_links s
                else fallback_rows s)
   \<and> fallback_divs s =
       take 40 (filter (\<lambda>d. post_find_all_a d \<noteq> [] \<and> 20 < length (post_text d))
                  (take 100 (soup_find_all_div s)))
   \<and> fallback_links s = take 40 (soup_select s link_pattern_selector)
   \<and> fallback_rows s = take 39 (drop 1 (soup_select s ''table tr''))
   \<and> length (discover s) \<le> 40"
proof -
  have d: "discover s =
     (case find (\<lambda>selector. 5 \<le> length (soup_select s selector)) selectors_to_try of
        Some selector \<Rightarrow> take 40 (soup_select s selector)
      | None \<Rightarrow> if fallback_divs s \<noteq> [] then fallback_divs s
                else if fallback_links s \<noteq> [] then fallback_links s
                else fallback_rows s)"
  proof (cases "find (\<lambda>selector. 5 \<le> length (soup_select s selector)) selectors_to_try")
    case None
    then show ?thesis by (simp add: discover_def try_selectors_find Let_def)
  next
    case (Some selector)
    then have "5 \<le> length (soup_select s selector)" by (auto simp: find_Some_iff)
    then have "take 40 (soup_select s selector) \<noteq> []" by auto
    with Some show ?thesis by (simp add: discover_def try_selectors_find Let_def)
  qed
  have l: "length (discover s) \<le> 40"
    unfolding d
    by (auto simp: fallback_divs_filter fallback_links_def fallback_rows_tail split: option.splits)
  show ?thesis
    using d l fallback_divs_filter [of s] fallback_rows_tail [of s]
    by (simp add: fallback_links_def)
qed

lemma absolute_link_http: "startswith (absolute_link raw) ''http''"
  by (simp add: absolute_link_def startswith_def site_origin_def)

text \<open>
  C7, as amended. An item with no title element is skipped. When the title element
  has no text, the title is the item's full text, and a full text of more than 50
  characters is cut to its first 50 characters followed by three dots, 53 characters in
  all. An item whose title has fewer than 2 characters is skipped and the record is
  unchanged.
\<close>

theorem title_recovery:
  "(find_title_element p = None \<longrightarrow> process_post c now ok p = (c, NoTitleElement))
   \<and> (\<forall>e. find_title_element p = Some e \<longrightarrow>
         recover_title p e =
           (if el_text e \<noteq> [] then el_text e
            else if length (post_text p) > 50 then take 50 (post_text p) @ ''...''
            else post_text p)
         \<and> (el_text e = [] \<longrightarrow> length (recover_title p e) \<le> 53)
         \<and> (length (recover_title p e) < 2 \<longrightarrow> process_post c now ok p = (c, TitleTooShort)))"
  by (auto simp: process_post_def extract_item_def recover_title_def Let_def)

text \<open>
  What lines 600-638 give: the link of an item that reaches the gates starts with
  \<open>http\<close> and does not contain \<open>/space/\<close>; the href found is used as it is when it
  starts with \<open>http\<close>, and is otherwise appended to the site origin, with a \<open>/\<close> in
  between when it does not start with one.
\<close>

lemma link_after_extraction:
  assumes "extract_item p = Inr (title, link)"
  shows "startswith link ''http''
       \<and> \<not> str_in ''/space/'' link
       \<and> process_post c now ok p = check_item c now ok title link
       \<and> (\<exists>e raw. find_title_element p = Some e \<and> find_link p e = Some raw \<and> raw \<noteq> []
             \<and> (startswith raw ''http'' \<longrightarrow> link = raw)
             \<and> (\<not> startswith raw ''http'' \<and> startswith raw ''/'' \<longrightarrow>
                  link = ''https://www.nodeseek.com'' @ raw)
             \<and> (\<not> startswith raw ''http'' \<and> \<not> startswith raw ''/'' \<longrightarrow>
                  link = ''https://www.nodeseek.com/'' @ raw))"
proof -
  from assms obtain e raw where e: "find_title_element p = Some e"
    and r: "find_link p e = Some raw" "raw \<noteq> []"
    and l: "link = absolute_link raw" and sp: "\<not> str_in ''/space/'' link"
    by (auto simp: extract_item_def Let_def split: option.splits if_splits)
  have "startswith link ''http''" unfolding l by (rule absolute_link_http)
  moreover have "process_post c now ok p = check_item c now ok title link"
    using assms by (simp add: process_post_def)
  moreover have "startswith raw ''http'' \<longrightarrow> link = raw"
    "\<not> startswith raw ''http'' \<and> startswith raw ''/'' \<longrightarrow> link = ''https://www.nodeseek.com'' @ raw"
    "\<not> startswith raw ''http'' \<and> \<not> startswith raw ''/'' \<longrightarrow> link = ''https://www.nodeseek.com/'' @ raw"
    unfolding l by (simp_all add: absolute_link_def site_origin_def)
  ultimately show ?thesis using e r sp by blast
qed

text \<open>
  C9, as amended. On a valid page where no items are found nothing is sent or stored, the
  attempt ends with a retry after 10 * (attempt + 2) seconds (or with a return on the
  third attempt), and the session-refresh flag is set: the result is the one a page that
  fails validation gives.
\<close>

theorem no_items_found:
  assumes "is_valid_page s" and "discover s = []"
  shows "check_page json_len clock http c need_cookie_refresh attempt s =
           \<lparr>ar_config = c, ar_need_cookie_refresh = True,
            ar_control = (if attempt < 2 then Continue (10 * (attempt + 2)) else Return),
            ar_outcomes = [], ar_saved = None\<rparr>
       \<and> (\<forall>s'. \<not> is_valid_page s' \<longrightarrow>
             check_page json_len clock http c need_cookie_refresh attempt s' =
             check_page json_len clock http c need_cookie_refresh attempt s)"
  using assms
  by (simp add: check_page_def retry_or_return_def max_retries_def retry_delay_def)

lemma discover_empty_iff:
  "discover s = [] \<longleftrightarrow>
     (\<forall>selector\<in>set selectors_to_try. length (soup_select s selector) < 5)
     \<and> fallback_divs s = [] \<and> fallback_links s = [] \<and> fallback_rows s = []"
proof (cases "find (\<lambda>selector. 5 \<le> length (soup_select s selector)) selectors_to_try")
  case None
  then have "\<forall>selector\<in>set selectors_to_try. length (soup_select s selector) < 5"
    by (auto simp: find_None_iff)
  with None show ?thesis by (simp add: discover_def try_selectors_find Let_def)
next
  case (Some selector)
  then have s: "selector \<in> set selectors_to_try" "5 \<le> length (soup_select s selector)"
    by (auto simp: find_Some_iff)
  then have "take 40 (soup_select s selector) \<noteq> []" by auto
  with Some have "discover s \<noteq> []" by (simp add: discover_def try_selectors_find Let_def)
  moreover have "\<not> (\<forall>selector\<in>set selectors_to_try. length (soup_select s selector) < 5)"
    using s by (metis not_less)
  ultimately show ?thesis by blast
qed

section \<open>Finding items on concrete inputs\<close>

theorem discover_strategy_witness:
  "find (\<lambda>selector. 5 \<le> length (soup_select ex_links_soup selector)) selectors_to_try = None
   \<and> fallback_divs ex_links_soup = []
   \<and> discover ex_links_soup = replicate 7 ex_link_post"
proof -
  have n: "find (\<lambda>selector. 5 \<le> length (soup_select ex_links_soup selector)) selectors_to_try
             = None"
    by (simp add: ex_links_soup_def selectors_to_try_def link_pattern_selector_def)
  have d: "fallback_divs ex_links_soup = []"
    by (simp add: fallback_divs_def ex_links_soup_def)
  have l: "fallback_links ex_links_soup = replicate 7 ex_link_post"
    by (simp add: fallback_links_def ex_links_soup_def)
  from discover_strategy [of ex_links_soup] n d l
  have "discover ex_links_soup = replicate 7 ex_link_post" by simp
  with n d show ?thesis by blast
qed

text \<open>
  C7 as stated fails: the title element has no text, the item's full text has 60
  characters, and the title has 53 characters, not 50.
\<close>

theorem title_recovery_counterexample:
  "find_title_element ex_long_post = Some ex_empty_heading
   \<and> el_text ex_empty_heading = []
   \<and> length (post_text ex_long_post) = 60
   \<and> length (recover_title ex_long_post ex_empty_heading) = 53
   \<and> extract_item ex_long_post =
       Inr (replicate 50 CHR ''x'' @ ''...'', ''https://www.nodeseek.com/post-7-1'')"
  by code_simp

theorem title_recovery_witness:
  "find_title_element (ex_post ''x'' ''/post-1-1'')
     = Some \<lparr>el_text = ''x'', el_href = Some ''/post-1-1''\<rparr>
   \<and> length (recover_title (ex_post ''x'' ''/post-1-1'')
                \<lparr>el_text = ''x'', el_href = Some ''/post-1-1''\<rparr>) < 2
   \<and> process_post ex_config 0 True (ex_post ''x'' ''/post-1-1'') = (ex_config, TitleTooShort)"
proof -
  have f: "find_title_element (ex_post ''x'' ''/post-1-1'')
     = Some \<lparr>el_text = ''x'', el_href = Some ''/post-1-1''\<rparr>"
    by (simp add: find_title_element_def title_selectors_def ex_post_def)
  have s: "length (recover_title (ex_post ''x'' ''/post-1-1'')
                \<lparr>el_text = ''x'', el_href = Some ''/post-1-1''\<rparr>) < 2"
    by (simp add: recover_title_def)
  from title_recovery [of "ex_post ''x'' ''/post-1-1''" ex_config 0 True] f s
  have "process_post ex_config 0 True (ex_post ''x'' ''/post-1-1'') = (ex_config, TitleTooShort)"
    by blast
  with f s show ?thesis by blast
qed

lemma link_after_extraction_example:
  "extract_item (ex_post ''Cheap VPS offer'' ''/post-101-1'')
     = Inr (''Cheap VPS offer'', ''https://www.nodeseek.com/post-101-1'')
   \<and> startswith ''https://www.nodeseek.com/post-101-1'' ''http''
   \<and> \<not> str_in ''/space/'' ''https://www.nodeseek.com/post-101-1''"
proof -
  have h: "extract_item (ex_post ''Cheap VPS offer'' ''/post-101-1'')
     = Inr (''Cheap VPS offer'', ''https://www.nodeseek.com/post-101-1'')"
    by code_simp
  from link_after_extraction [OF h] h show ?thesis by blast
qed

text \<open>
  C9 as stated fails: the page is valid, no strategy finds an item, the flag was unset
  before the attempt and is set after it.
\<close>

theorem no_items_found_counterexample:
  "is_valid_page ex_empty_soup \<and> discover ex_empty_soup = []
   \<and> ar_need_cookie_refresh
        (check_page ex_big_json_len (\<lambda>i. 0) (\<lambda>i. True) ex_config False 0 ex_empty_soup) = True
   \<and> ar_control
        (check_page ex_big_json_len (\<lambda>i. 0) (\<lambda>i. True) ex_config False 0 ex_empty_soup)
       = Continue 20"
  by code_simp

theorem no_items_found_witness:
  "is_valid_page ex_empty_soup \<and> discover ex_empty_soup = []
   \<and> check_page ex_big_json_len (\<lambda>i. 0) (\<lambda>i. True) ex_config False 2 ex_empty_soup =
       \<lparr>ar_config = ex_config, ar_need_cookie_refresh = True, ar_control = Return,
        ar_outcomes = [], ar_saved = None\<rparr>"
proof -
  have v: "is_valid_page ex_empty_soup" by code_simp
  have d: "discover ex_empty_soup = []" by code_simp
  from no_items_found [OF v d, of ex_big_json_len "\<lambda>i. 0" "\<lambda>i. True" ex_config False 2] v d
  show ?thesis by simp
qed

text \<open>
  C8 fails on the code. Line 624 takes every href that starts with \<open>http\<close> for an
  absolute URL, against the comment of line 623: the relative href \<open>httpdocs/post/5\<close>
  is not resolved against the site origin, reaches the gates as it is and is sent in the
  notification, whereas \<open>docs/post/5\<close> is resolved.
\<close>

theorem relative_link_unresolved:
  "extract_item (ex_post ''Cheap VPS offer'' ''httpdocs/post/5'')
     = Inr (''Cheap VPS offer'', ''httpdocs/post/5'')
   \<and> \<not> startswith ''httpdocs/post/5'' ''http://''
   \<and> \<not> startswith ''httpdocs/post/5'' ''https://''
   \<and> snd (process_post ex_config 0 True (ex_post ''Cheap VPS offer'' ''httpdocs/post/5''))
       = Sent [''vps''] ''Cheap VPS offer'' ''httpdocs/post/5''
   \<and> extract_item (ex_post ''Cheap VPS offer'' ''docs/post/5'')
     = Inr (''Cheap VPS offer'', ''https://www.nodeseek.com/docs/post/5'')"
  by code_simp

section \<open>Remarks\<close>

text \<open>
  The window of the title gate starts at the recorded time of the first item, which has
  no fraction of a second: evaluated 0.9 s and 7200.5 s after that second began, two
  items with the same normalized title are 7199.6 s apart and both are notified.
\<close>

lemma title_window_boundary_example:
  "7200500000 - 900000 < (7200 * 1000000 :: int)
   \<and> snd (check_item ex_deal_config 900000 True ''Deal A'' ex_link1)
       = Sent [''Deal''] ''Deal A'' ex_link1
   \<and> snd (check_item (fst (check_item ex_deal_config 900000 True ''Deal A'' ex_link1))
            7200500000 True ''deal a'' ex_link2)
       = Sent [''Deal''] ''deal a'' ex_link2"
  by code_simp

text \<open>
  \<open>check_rss_feed\<close> creates a missing \<open>title_notifications\<close> before the first attempt
  (lines 322-323), after which no item ends in the error branch.
\<close>

lemma ensure_title_notifications_present:
  "title_notifications (ensure_title_notifications c) \<noteq> None"
  by (simp add: ensure_title_notifications_def split: option.splits)

lemma check_item_no_error:
  assumes "title_notifications c \<noteq> None"
  shows "snd (check_item c now ok title link) \<noteq> ItemError"
    and "title_notifications (fst (check_item c now ok title link)) \<noteq> None"
  using assms
  by (auto simp: check_item_def Let_def purge_titles_def split: option.splits if_splits)

end
